theory Spec2Isabelle
  imports Main
begin

section \<open>Python strings\<close>

text \<open>
  A Python \<open>str\<close> is modelled as a \<open>string\<close> (a list of 8-bit characters). The
  development covers ASCII text: \<open>is_space\<close> is \<open>str.isspace\<close> on the ASCII range
  (TAB, LF, VT, FF, CR, FS, GS, RS, US and the blank), which is also what \<open>\s\<close> matches
  in a \<open>str\<close> pattern of the \<open>re\<close> module, and \<open>upper\<close> is \<open>str.upper\<close> on the
  ASCII range (only \<open>a\<close> .. \<open>z\<close> change). Characters from 128 on are left alone by
  both; what Python does with them is outside the model.
\<close>

definition is_space :: "char \<Rightarrow> bool" where
  "is_space c = (let n = (of_char c :: nat) in (9 \<le> n \<and> n \<le> 13) \<or> (28 \<le> n \<and> n \<le> 32))"

definition lstrip :: "string \<Rightarrow> string" where
  "lstrip s = dropWhile is_space s"

definition rstrip :: "string \<Rightarrow> string" where
  "rstrip s = rev (dropWhile is_space (rev s))"

definition strip :: "string \<Rightarrow> string" where
  "strip s = rstrip (lstrip s)"

definition upper_char :: "char \<Rightarrow> char" where
  "upper_char c = (let n = (of_char c :: nat) in if 97 \<le> n \<and> n \<le> 122 then char_of (n - 32) else c)"

definition upper :: "string \<Rightarrow> string" where
  "upper s = map upper_char s"

definition startswith :: "string \<Rightarrow> string \<Rightarrow> bool" where
  "startswith s p = (take (length p) s = p)"

text \<open>\<open>s.split(',')\<close>: never empty, \<open>''.split(',') == ['']\<close>.\<close>

fun split_comma :: "string \<Rightarrow> string list" where
  "split_comma [] = [[]]"
| "split_comma (c # cs) =
     (if c = CHR '','' then [] # split_comma cs
      else (case split_comma cs of [] \<Rightarrow> [[c]] | w # ws \<Rightarrow> (c # w) # ws))"

text \<open>\<open>s.split(',', 1)\<close>: at most one split, at the first comma.\<close>

definition split_comma1 :: "string \<Rightarrow> string list" where
  "split_comma1 s =
     (if CHR '','' \<in> set s
      then [takeWhile (\<lambda>c. c \<noteq> CHR '','') s, tl (dropWhile (\<lambda>c. c \<noteq> CHR '','') s)]
      else [s])"

text \<open>\<open>sep.join(xs)\<close>.\<close>

fun join :: "string \<Rightarrow> string list \<Rightarrow> string" where
  "join sep [] = []"
| "join sep [x] = x"
| "join sep (x # y # ys) = x @ sep @ join sep (y # ys)"

text \<open>The comprehension \<open>[p.strip() for p in line.split(',') if p.strip()]\<close>.\<close>

definition stripped_parts :: "string list \<Rightarrow> string list" where
  "stripped_parts ps = map strip (filter (\<lambda>p. strip p \<noteq> []) ps)"

section \<open>The rule model\<close>

datatype RuleType =
    DOMAIN | DOMAIN_SUFFIX | DOMAIN_KEYWORD | DOMAIN_REGEX | GEOSITE
  | IP_CIDR | IP_CIDR6 | IP_SUFFIX | IP_ASN | GEOIP
  | SRC_GEOIP | SRC_IP_ASN | SRC_IP_CIDR | SRC_IP_SUFFIX
  | DST_PORT | SRC_PORT
  | IN_PORT | IN_TYPE | IN_USER | IN_NAME
  | PROCESS_PATH | PROCESS_PATH_REGEX | PROCESS_NAME | PROCESS_NAME_REGEX
  | UID | NETWORK | DSCP
  | RULE_SET | AND | OR | NOT | SUB_RULE
  | MATCH

text \<open>The members of the enumeration with their values, in the order of the class body.\<close>

definition RuleType_members :: "(string \<times> RuleType) list" where
  "RuleType_members =
    [(''DOMAIN'', DOMAIN), (''DOMAIN-SUFFIX'', DOMAIN_SUFFIX),
     (''DOMAIN-KEYWORD'', DOMAIN_KEYWORD), (''DOMAIN-REGEX'', DOMAIN_REGEX),
     (''GEOSITE'', GEOSITE),
     (''IP-CIDR'', IP_CIDR), (''IP-CIDR6'', IP_CIDR6), (''IP-SUFFIX'', IP_SUFFIX),
     (''IP-ASN'', IP_ASN), (''GEOIP'', GEOIP),
     (''SRC-GEOIP'', SRC_GEOIP), (''SRC-IP-ASN'', SRC_IP_ASN),
     (''SRC-IP-CIDR'', SRC_IP_CIDR), (''SRC-IP-SUFFIX'', SRC_IP_SUFFIX),
     (''DST-PORT'', DST_PORT), (''SRC-PORT'', SRC_PORT),
     (''IN-PORT'', IN_PORT), (''IN-TYPE'', IN_TYPE), (''IN-USER'', IN_USER),
     (''IN-NAME'', IN_NAME),
     (''PROCESS-PATH'', PROCESS_PATH), (''PROCESS-PATH-REGEX'', PROCESS_PATH_REGEX),
     (''PROCESS-NAME'', PROCESS_NAME), (''PROCESS-NAME-REGEX'', PROCESS_NAME_REGEX),
     (''UID'', UID), (''NETWORK'', NETWORK), (''DSCP'', DSCP),
     (''RULE-SET'', RULE_SET), (''AND'', AND), (''OR'', OR), (''NOT'', NOT),
     (''SUB-RULE'', SUB_RULE),
     (''MATCH'', MATCH)]"

text \<open>\<open>RuleType(s)\<close>, the lookup by value; \<open>None\<close> stands for the \<open>ValueError\<close>.\<close>

definition RuleType_of :: "string \<Rightarrow> RuleType option" where
  "RuleType_of s = map_of RuleType_members s"


datatype Action = DIRECT | REJECT | REJECT_DROP | PASS | COMPATIBLE

definition Action_members :: "(string \<times> Action) list" where
  "Action_members =
    [(''DIRECT'', DIRECT), (''REJECT'', REJECT), (''REJECT-DROP'', REJECT_DROP),
     (''PASS'', PASS), (''COMPATIBLE'', COMPATIBLE)]"

definition Action_of :: "string \<Rightarrow> Action option" where
  "Action_of s = map_of Action_members s"


text \<open>
  The field type \<open>Union[Action, str]\<close>: a member of the enumeration, or a string (the
  name of a proxy group).
\<close>

datatype action_t = BuiltIn Action | Named string

text \<open>
  The three dataclasses \<open>ClashRule\<close>, \<open>LogicRule\<close> and \<open>MatchRule\<close> as one tagged union,
  fields in the order of the class bodies. \<open>additional_params\<close> is the list that
  \<open>__post_init__\<close> leaves (\<open>None\<close> becomes \<open>[]\<close>).
\<close>

datatype Rule =
    ClashRule (rule_type: RuleType) (payload: string) (action: action_t)
      (additional_params: "string list") (raw_rule: string) (priority: int)
  | LogicRule (logic_type: RuleType) (conditions: "Rule list") (action: action_t)
      (raw_rule: string) (priority: int)
  | MatchRule (action: action_t) (raw_rule: string) (priority: int) (rule_type: RuleType)


section \<open>Exceptions and printed diagnostics\<close>

text \<open>
  One constructor for each \<open>raise\<close> of the parser, carrying the values its message is
  formatted from, and one for the \<open>AttributeError\<close> of \<open>.upper()\<close> on a value that is
  not a string.
\<close>

datatype error =
    InvalidMatchFormat string
  | InvalidRuleFormat string
  | UnknownRuleType string string
  | InvalidLogicFormat string
  | InvalidLogicRule string
  | AttributeError

text \<open>
  One constructor for each \<open>print\<close> of the parser. A function that prints returns the
  list of its diagnostics, in the order printed, beside its result.
\<close>

datatype diag =
    ExpectedString
  | ErrorParsingRule string error
  | ExpectedDict
  | MissingType
  | ExpectedConditionsList
  | NoValidConditions
  | MissingMatchAction
  | MissingPayload string
  | ErrorParsingRuleDict error
  | UnmatchedClosingParenthesis string
  | InvalidConditionFormat string
  | InvalidRuleTypeInCondition string

section \<open>The parser\<close>

text \<open>
  The static methods of \<open>ClashRuleParser\<close>. The helper methods are named without their
  leading underscore. A function that can raise returns \<open>error + 'a\<close>, \<open>Inl\<close> being the
  exception.
\<close>

definition parse_match_rule :: "string \<Rightarrow> error + Rule" where
  "parse_match_rule line =
     (let parts = stripped_parts (split_comma line) in
      if length parts \<noteq> 2 then Inl (InvalidMatchFormat line)
      else
        (let action' = parts ! 1 in
         case Action_of (upper action') of
           Some action_enum \<Rightarrow> Inr (MatchRule (BuiltIn action_enum) line 0 MATCH)
         | None \<Rightarrow> Inr (MatchRule (Named action') line 0 MATCH)))"

definition parse_regular_rule :: "string \<Rightarrow> error + Rule" where
  "parse_regular_rule line =
     (let parts = stripped_parts (split_comma line) in
      if length parts < 3 then Inl (InvalidRuleFormat line)
      else
        (let rule_type_str = upper (parts ! 0);
             payload' = parts ! 1;
             action' = parts ! 2;
             additional_params' = (if length parts > 3 then drop 3 parts else [])
         in
         case RuleType_of rule_type_str of
           None \<Rightarrow> Inl (UnknownRuleType rule_type_str line)
         | Some rule_type' \<Rightarrow>
             (let final_action =
                (case Action_of (upper action') of
                   Some action_enum \<Rightarrow> BuiltIn action_enum
                 | None \<Rightarrow> Named action')
              in Inr (ClashRule rule_type' payload' final_action additional_params' line 0))))"

text \<open>
  \<open>_parse_single_condition\<close> catches the only exception it can raise, so it has no
  exception result. A condition carries the empty string as its action.
\<close>

definition parse_single_condition :: "string \<Rightarrow> diag list \<times> Rule option" where
  "parse_single_condition condition_str =
     (let parts = stripped_parts (split_comma1 condition_str) in
      if length parts \<noteq> 2 then ([InvalidConditionFormat condition_str], None)
      else
        (let rule_type_str = parts ! 0; payload' = parts ! 1 in
         case RuleType_of (upper rule_type_str) of
           Some rule_type' \<Rightarrow>
             ([], Some (ClashRule rule_type' payload' (Named []) [] condition_str 0))
         | None \<Rightarrow> ([InvalidRuleTypeInCondition rule_type_str], None)))"

text \<open>
  The loop of \<open>_parse_logic_conditions\<close> over the characters still to read, with the
  diagnostics printed so far and the three local variables \<open>conditions\<close>, \<open>stack\<close> and
  \<open>current\<close>. The first argument is the whole \<open>conditions_str\<close>, which the diagnostic
  of an unmatched parenthesis prints.
\<close>

fun logic_conditions_loop ::
  "string \<Rightarrow> string \<Rightarrow> diag list \<Rightarrow> Rule list \<Rightarrow> char list \<Rightarrow> string \<Rightarrow> diag list \<times> Rule list"
where
  "logic_conditions_loop conditions_str [] ds conditions' stack current = (ds, conditions')"
| "logic_conditions_loop conditions_str (char # rest) ds conditions' stack current =
     (if char = CHR ''('' then
        logic_conditions_loop conditions_str rest ds conditions' (stack @ [char])
          (if stack \<noteq> [] then current @ [char] else current)
      else if char = CHR '')'' then
        (if stack \<noteq> [] then
           (if butlast stack = [] then
              (case parse_single_condition current of
                 (ds', Some rule) \<Rightarrow>
                   logic_conditions_loop conditions_str rest (ds @ ds') (conditions' @ [rule])
                     (butlast stack) []
               | (ds', None) \<Rightarrow>
                   logic_conditions_loop conditions_str rest (ds @ ds') conditions'
                     (butlast stack) [])
            else
              logic_conditions_loop conditions_str rest ds conditions' (butlast stack)
                (current @ [char]))
         else
           logic_conditions_loop conditions_str rest
             (ds @ [UnmatchedClosingParenthesis conditions_str]) conditions' stack current)
      else
        logic_conditions_loop conditions_str rest ds conditions' stack
          (if stack \<noteq> [] then current @ [char] else current))"

definition parse_logic_conditions :: "string \<Rightarrow> diag list \<times> Rule list" where
  "parse_logic_conditions conditions_str =
     logic_conditions_loop conditions_str conditions_str [] [] [] []"

text \<open>
  The regular expression of \<open>_parse_logic_rule\<close>,
  \<^verbatim>\<open>^(AND|OR|NOT),\s*\((.+)\)\s*,\s*([^,]+)$\<close>, matched from the start of the string.
  Where it can match is forced. Nothing after the second literal comma of the pattern
  matches a comma, so that comma is the last comma of the string; between the closing
  parenthesis of the pattern and that comma only white space fits, so the parenthesis
  is the last character before that comma that is not white space; and the opening
  parenthesis is the first character after the keyword's comma that is not white space.
  Group 2 is what lies between the two parentheses: it must not be empty, and \<open>.\<close> does
  not match a line feed. Group 3 is the text after the last comma without its leading
  white space (\<open>\s*\<close> is greedy), or its last character when it is white space only.
  The result is the three groups.
\<close>

definition logic_keyword :: "string \<Rightarrow> (string \<times> string) option" where
  "logic_keyword s =
     (if startswith s ''AND,'' then Some (''AND'', drop 4 s)
      else if startswith s ''OR,'' then Some (''OR'', drop 3 s)
      else if startswith s ''NOT,'' then Some (''NOT'', drop 4 s)
      else None)"

definition split_last_comma :: "string \<Rightarrow> (string \<times> string) option" where
  "split_last_comma s =
     (if CHR '','' \<in> set s
      then Some (rev (tl (dropWhile (\<lambda>c. c \<noteq> CHR '','') (rev s))),
                 rev (takeWhile (\<lambda>c. c \<noteq> CHR '','') (rev s)))
      else None)"

definition match_logic_pattern :: "string \<Rightarrow> (string \<times> string \<times> string) option" where
  "match_logic_pattern s =
     (case logic_keyword s of
        None \<Rightarrow> None
      | Some (kw, r0) \<Rightarrow>
          (case dropWhile is_space r0 of
             [] \<Rightarrow> None
           | c # r1 \<Rightarrow>
               if c \<noteq> CHR ''('' then None
               else
                 (case split_last_comma r1 of
                    None \<Rightarrow> None
                  | Some (front, tail) \<Rightarrow>
                      (let b = rstrip front in
                       if b = [] then None
                       else if last b \<noteq> CHR '')'' then None
                       else if butlast b = [] then None
                       else if CHR 0x0A \<in> set (butlast b) then None
                       else if tail = [] then None
                       else Some (kw, butlast b,
                                  if dropWhile is_space tail = [] then [last tail]
                                  else dropWhile is_space tail)))))"

definition parse_logic_rule :: "string \<Rightarrow> diag list \<times> (error + Rule)" where
  "parse_logic_rule line =
     (case match_logic_pattern (strip line) of
        None \<Rightarrow> ([], Inl (InvalidLogicFormat line))
      | Some (g1, g2, g3) \<Rightarrow>
          (let logic_type_str = upper g1;
               conditions_str = strip g2;
               action' = strip g3
           in
           case RuleType_of logic_type_str of
             None \<Rightarrow> ([], Inl (InvalidLogicRule line))
           | Some logic_type' \<Rightarrow>
               (case parse_logic_conditions conditions_str of
                  (ds, conditions') \<Rightarrow>
                    (let final_action =
                       (case Action_of (upper action') of
                          Some action_enum \<Rightarrow> BuiltIn action_enum
                        | None \<Rightarrow> Named action')
                     in (ds, Inr (LogicRule logic_type' conditions' final_action line 0))))))"

text \<open>
  The values a caller can pass: a string, a list, a dictionary with string keys, or
  any other object, of which the parser only ever uses the truth value.
\<close>

datatype pyval =
    PStr string
  | PList "pyval list"
  | PDict "(string \<times> pyval) list"
  | POther bool

text \<open>
  \<open>parse_rule_line\<close>: the result is \<open>Inr None\<close> for Python's \<open>return None\<close>; \<open>Inl\<close> would
  be an exception that leaves the function.
\<close>

definition parse_rule_line :: "pyval \<Rightarrow> diag list \<times> (error + Rule option)" where
  "parse_rule_line v =
     (case v of
        PStr s \<Rightarrow>
          (let line = strip s in
           if line = [] then ([], Inr None)
           else
             (case (if startswith line ''AND,'' \<or> startswith line ''OR,''
                       \<or> startswith line ''NOT,''
                    then parse_logic_rule line
                    else if startswith (upper line) ''MATCH,''
                    then ([], parse_match_rule line)
                    else ([], parse_regular_rule line)) of
                (ds, Inr r) \<Rightarrow> (ds, Inr (Some r))
              | (ds, Inl e) \<Rightarrow> (ds @ [ErrorParsingRule line e], Inr None)))
      | _ \<Rightarrow> ([ExpectedString], Inr None))"

text \<open>
  The truth value of a value (\<open>if not action\<close>, \<open>if cond_type and cond_payload\<close>), and a
  value formatted in an f-string or by \<open>str(p)\<close>: a string is itself, and what \<open>str()\<close>
  makes of any other value is the parameter \<open>str_of\<close>.
\<close>

fun truthy :: "pyval \<Rightarrow> bool" where
  "truthy (PStr s) = (s \<noteq> [])"
| "truthy (PList xs) = (xs \<noteq> [])"
| "truthy (PDict kvs) = (kvs \<noteq> [])"
| "truthy (POther b) = b"

definition format :: "(pyval \<Rightarrow> string) \<Rightarrow> pyval \<Rightarrow> string" where
  "format str_of v = (case v of PStr s \<Rightarrow> s | _ \<Rightarrow> str_of v)"

text \<open>\<open>d.get(key, default)\<close>.\<close>

definition dict_get :: "(string \<times> pyval) list \<Rightarrow> string \<Rightarrow> pyval \<Rightarrow> pyval" where
  "dict_get d key dflt = (case map_of d key of Some v \<Rightarrow> v | None \<Rightarrow> dflt)"

text \<open>
  The loop of \<open>parse_rule_dict\<close> that builds \<open>conditions_str\<close>: what one entry appends,
  and the concatenation over the list.
\<close>

definition condition_text :: "(pyval \<Rightarrow> string) \<Rightarrow> pyval \<Rightarrow> string" where
  "condition_text str_of cond =
     (case cond of
        PDict c \<Rightarrow>
          (let cond_type = dict_get c ''type'' (PStr []);
               cond_payload = dict_get c ''payload'' (PStr [])
           in if truthy cond_type \<and> truthy cond_payload
              then ''('' @ format str_of cond_type @ '','' @ format str_of cond_payload @ '')''
              else [])
      | PStr s \<Rightarrow> s
      | _ \<Rightarrow> [])"

definition conditions_text :: "(pyval \<Rightarrow> string) \<Rightarrow> pyval list \<Rightarrow> string" where
  "conditions_text str_of conds = concat (map (condition_text str_of) conds)"

text \<open>
  The body of the \<open>try\<close> of \<open>parse_rule_dict\<close>, for a dictionary. \<open>.upper()\<close> on a type
  that is not a string raises.
\<close>

definition parse_rule_dict_body ::
  "(pyval \<Rightarrow> string) \<Rightarrow> (string \<times> pyval) list \<Rightarrow> diag list \<times> (error + Rule option)"
where
  "parse_rule_dict_body str_of d =
     (case dict_get d ''type'' (PStr []) of
        PStr t \<Rightarrow>
          (let rule_type' = upper t;
               action' = dict_get d ''action'' (PStr [])
           in
           if rule_type' = [] then ([MissingType], Inr None)
           else if rule_type' = ''AND'' \<or> rule_type' = ''OR'' \<or> rule_type' = ''NOT'' then
             (case dict_get d ''conditions'' (PList []) of
                PList conds \<Rightarrow>
                  (let conditions_str = conditions_text str_of conds in
                   if conditions_str = [] then ([NoValidConditions], Inr None)
                   else
                     (case parse_logic_rule
                             (rule_type' @ '',('' @ conditions_str @ ''),''
                                @ format str_of action') of
                        (ds, r) \<Rightarrow> (ds, map_sum id Some r)))
              | _ \<Rightarrow> ([ExpectedConditionsList], Inr None))
           else if rule_type' = ''MATCH'' then
             (if \<not> truthy action' then ([MissingMatchAction], Inr None)
              else ([], map_sum id Some (parse_match_rule (''MATCH,'' @ format str_of action'))))
           else
             (let payload' = dict_get d ''payload'' (PStr []) in
              if \<not> truthy payload' then ([MissingPayload rule_type'], Inr None)
              else
                (let additional_params' =
                       (case dict_get d ''additional_params'' (PList []) of
                          PList ps \<Rightarrow> ps
                        | _ \<Rightarrow> []);
                     raw_rule' = rule_type' @ '','' @ format str_of payload' @ '',''
                                   @ format str_of action';
                     raw_rule'' =
                       (if additional_params' \<noteq> []
                        then raw_rule' @ '','' @ join '','' (map (format str_of) additional_params')
                        else raw_rule')
                 in ([], map_sum id Some (parse_regular_rule raw_rule'')))))
      | _ \<Rightarrow> ([], Inl AttributeError))"

definition parse_rule_dict ::
  "(pyval \<Rightarrow> string) \<Rightarrow> pyval \<Rightarrow> diag list \<times> (error + Rule option)"
where
  "parse_rule_dict str_of rule_dict =
     (case rule_dict of
        PStr s \<Rightarrow> parse_rule_line (PStr s)
      | PDict d \<Rightarrow>
          (case parse_rule_dict_body str_of d of
             (ds, Inr r) \<Rightarrow> (ds, Inr r)
           | (ds, Inl e) \<Rightarrow> (ds @ [ErrorParsingRuleDict e], Inr None))
      | _ \<Rightarrow> ([ExpectedDict], Inr None))"

section \<open>Rendering a rule as a line\<close>






section \<open>Parsing a sequence, and the action as the spec words it\<close>



text \<open>
  The line that \<open>parse_rule_dict\<close> builds from a dictionary whose type is a string, and
  hands to one of the three path parsers: the textual form of the structured rule.
  It is \<open>None\<close> where \<open>parse_rule_dict\<close> returns before it has built a line. The value
  \<open>str_unused\<close> stands for \<open>str()\<close> in examples whose fields are all strings, where it
  is never applied.
\<close>

definition dict_line :: "(pyval \<Rightarrow> string) \<Rightarrow> (string \<times> pyval) list \<Rightarrow> string option" where
  "dict_line str_of d =
     (case dict_get d ''type'' (PStr []) of
        PStr t \<Rightarrow>
          (let rule_type' = upper t;
               action' = dict_get d ''action'' (PStr [])
           in
           if rule_type' = [] then None
           else if rule_type' = ''AND'' \<or> rule_type' = ''OR'' \<or> rule_type' = ''NOT'' then
             (case dict_get d ''conditions'' (PList []) of
                PList conds \<Rightarrow>
                  if conditions_text str_of conds = [] then None
                  else Some (rule_type' @ '',('' @ conditions_text str_of conds @ ''),''
                               @ format str_of action')
              | _ \<Rightarrow> None)
           else if rule_type' = ''MATCH'' then
             (if \<not> truthy action' then None
              else Some (''MATCH,'' @ format str_of action'))
           else
             (let payload' = dict_get d ''payload'' (PStr []) in
              if \<not> truthy payload' then None
              else
                (let additional_params' =
                       (case dict_get d ''additional_params'' (PList []) of
                          PList ps \<Rightarrow> ps
                        | _ \<Rightarrow> []);
                     raw_rule' = rule_type' @ '','' @ format str_of payload' @ '',''
                                   @ format str_of action'
                 in Some (if additional_params' \<noteq> []
                          then raw_rule' @ '','' @ join '','' (map (format str_of) additional_params')
                          else raw_rule'))))
      | _ \<Rightarrow> None)"

definition str_unused :: "pyval \<Rightarrow> string" where
  "str_unused v = []"

section \<open>Facts about the string functions\<close>


lemma of_char_upper_char:
  "(of_char (upper_char c) :: nat) =
     (if 97 \<le> (of_char c :: nat) \<and> (of_char c :: nat) \<le> 122 then of_char c - 32 else of_char c)"
  by (auto simp: upper_char_def Let_def)

lemma upper_char_idem: "upper_char (upper_char c) = upper_char c"
proof -
  have "(of_char (upper_char (upper_char c)) :: nat) = of_char (upper_char c)"
    by (simp only: of_char_upper_char [of "upper_char c"]) (auto simp: of_char_upper_char)
  then show ?thesis by (simp only: of_char_eq_iff)
qed

lemma upper_idem: "upper (upper s) = upper s"
  by (simp add: upper_def upper_char_idem)

lemma upper_char_comma: "(upper_char c = CHR '','') = (c = CHR '','')"
proof -
  have "(upper_char c = CHR '','') = ((of_char (upper_char c) :: nat) = of_char CHR '','')"
    by (simp only: of_char_eq_iff)
  also have "\<dots> = ((of_char c :: nat) = of_char CHR '','')"
    by (auto simp: of_char_upper_char)
  also have "\<dots> = (c = CHR '','')"
    by (simp only: of_char_eq_iff)
  finally show ?thesis .
qed

lemma upper_append: "upper (a @ b) = upper a @ upper b"
  by (simp add: upper_def)

lemma upper_comma_free: "(CHR '','' \<in> set (upper s)) = (CHR '','' \<in> set s)"
proof (induction s)
  case Nil
  then show ?case by (simp add: upper_def)
next
  case (Cons c s)
  have "(CHR '','' = upper_char c) = (CHR '','' = c)"
    using upper_char_comma [of c] by auto
  with Cons show ?case by (simp add: upper_def)
qed

lemma strip_fixed:
  assumes "s \<noteq> []" and "\<not> is_space (hd s)" and "\<not> is_space (last s)"
  shows "strip s = s"
proof -
  have l: "dropWhile is_space s = s"
    using assms by (cases s) auto
  obtain ys y where s: "s = ys @ [y]"
    using assms(1) by (cases s rule: rev_cases) auto
  with assms(3) have "dropWhile is_space (rev s) = rev s"
    by simp
  with l show ?thesis
    by (simp add: strip_def lstrip_def rstrip_def)
qed

lemma strip_ends:
  assumes "strip s \<noteq> []"
  shows "\<not> is_space (hd (strip s)) \<and> \<not> is_space (last (strip s))"
proof -
  define t where "t = dropWhile is_space s"
  define u where "u = dropWhile is_space (rev t)"
  have st: "strip s = rev u"
    by (simp add: strip_def lstrip_def rstrip_def t_def u_def)
  with assms have u: "u \<noteq> []" by simp
  then have "\<not> is_space (hd u)"
    unfolding u_def by (rule hd_dropWhile)
  then have last: "\<not> is_space (last (strip s))"
    using u by (simp add: st last_rev)
  have "rev t = takeWhile is_space (rev t) @ u"
    by (simp add: u_def)
  then have "rev (rev t) = rev (takeWhile is_space (rev t) @ u)"
    by simp
  then have t: "t = rev u @ rev (takeWhile is_space (rev t))"
    by simp
  with u have "hd t = hd (rev u)"
    by (metis hd_append2 rev_is_Nil_conv)
  moreover have "t \<noteq> []" using t u by auto
  then have "\<not> is_space (hd t)"
    unfolding t_def by (rule hd_dropWhile)
  ultimately show ?thesis using last st by simp
qed

lemma strip_idem: "strip (strip s) = strip s"
proof (cases "strip s = []")
  case True
  have "strip [] = []" by (simp add: strip_def lstrip_def rstrip_def)
  with True show ?thesis by simp
next
  case False
  then show ?thesis using strip_ends [of s] by (simp add: strip_fixed)
qed


lemma split_comma_not_Nil: "split_comma s \<noteq> []"
  by (induction s) (auto split: list.splits)





lemma join_split_comma: "join '','' (split_comma s) = s"
proof (induction s)
  case Nil
  then show ?case by simp
next
  case (Cons c s)
  then show ?case
    using split_comma_not_Nil [of s]
    by (cases "split_comma s"; cases "tl (split_comma s)") (auto split: list.splits)
qed










section \<open>Facts about the tokens of the enumerations\<close>






section \<open>The logic decomposer\<close>

text \<open>
  Inside a group the scan only collects: a stretch without parentheses, read while the
  stack is not empty, is appended to \<open>current\<close>.
\<close>

lemma loop_inside_group:
  "CHR ''('' \<notin> set g \<Longrightarrow> CHR '')'' \<notin> set g \<Longrightarrow> stack \<noteq> [] \<Longrightarrow>
   logic_conditions_loop cs (g @ rest) ds conds stack cur =
   logic_conditions_loop cs rest ds conds stack (cur @ g)"
  by (induction g arbitrary: cur) auto

text \<open>
  One top-level group without inner parentheses: its text is parsed as a single
  condition, and the scan goes on behind it with an empty stack and buffer.
\<close>

lemma loop_group:
  assumes "CHR ''('' \<notin> set g" and "CHR '')'' \<notin> set g"
  shows "logic_conditions_loop cs (''('' @ g @ '')'' @ rest) ds conds [] [] =
     (case parse_single_condition g of
        (ds', Some r) \<Rightarrow> logic_conditions_loop cs rest (ds @ ds') (conds @ [r]) [] []
      | (ds', None) \<Rightarrow> logic_conditions_loop cs rest (ds @ ds') conds [] [])"
  using assms by (simp add: loop_inside_group)

lemma single_condition_None_diag:
  "snd (parse_single_condition g) = None \<Longrightarrow> fst (parse_single_condition g) \<noteq> []"
  by (auto simp: parse_single_condition_def Let_def split: option.splits if_splits)

lemma single_condition_leaf:
  "parse_single_condition g = (ds, Some r) \<Longrightarrow> is_ClashRule r"
  by (auto simp: parse_single_condition_def Let_def split: option.splits if_splits)

lemma loop_leaves:
  "\<forall>c \<in> set conds. is_ClashRule c \<Longrightarrow>
   \<forall>c \<in> set (snd (logic_conditions_loop cs s ds conds stack cur)). is_ClashRule c"
proof (induction s arbitrary: ds conds stack cur)
  case Nil
  then show ?case by simp
next
  case (Cons ch s)
  show ?case
  proof (cases "parse_single_condition cur")
    case (Pair ds' ro)
    then show ?thesis
      using Cons.prems
      by (cases ro) (auto intro!: Cons.IH dest: single_condition_leaf)
  qed
qed

section \<open>Parsing a logic rule\<close>

text \<open>
  Claim C4. The line \<open>AND,((DOMAIN,ad.com),(NETWORK,UDP)),REJECT\<close> parses, with nothing
  printed, to a \<open>LogicRule\<close> of type \<open>AND\<close> whose conditions are the two rules
  \<open>DOMAIN,ad.com\<close> and \<open>NETWORK,UDP\<close> in this order, and whose action is the member
  \<open>REJECT\<close> of the enumeration.
\<close>

theorem parse_and_example:
  "parse_rule_line (PStr ''AND,((DOMAIN,ad.com),(NETWORK,UDP)),REJECT'') =
     ([], Inr (Some (LogicRule AND
        [ClashRule DOMAIN ''ad.com'' (Named []) [] ''DOMAIN,ad.com'' 0,
         ClashRule NETWORK ''UDP'' (Named []) [] ''NETWORK,UDP'' 0]
        (BuiltIn REJECT) ''AND,((DOMAIN,ad.com),(NETWORK,UDP)),REJECT'' 0)))"
  by code_simp

text \<open>
  Claim C5. A top-level group whose text does not parse as a condition is dropped: it
  prints a diagnostic, adds no condition, and the scan goes on with the groups behind
  it. The line \<open>AND,((DOMAIN,a.com),(BAD_KIND,x)),DIRECT\<close> parses to a \<open>LogicRule\<close>
  with the one condition \<open>DOMAIN,a.com\<close>, and the diagnostic names \<open>BAD_KIND\<close>.
\<close>

theorem lenient_skip:
  "(\<forall>g rest cs ds conds.
      CHR ''('' \<notin> set g \<and> CHR '')'' \<notin> set g \<and> snd (parse_single_condition g) = None \<longrightarrow>
      fst (parse_single_condition g) \<noteq> [] \<and>
      logic_conditions_loop cs (''('' @ g @ '')'' @ rest) ds conds [] [] =
        logic_conditions_loop cs rest (ds @ fst (parse_single_condition g)) conds [] [])
   \<and> parse_rule_line (PStr ''AND,((DOMAIN,a.com),(BAD_KIND,x)),DIRECT'') =
       ([InvalidRuleTypeInCondition ''BAD_KIND''],
        Inr (Some (LogicRule AND
          [ClashRule DOMAIN ''a.com'' (Named []) [] ''DOMAIN,a.com'' 0]
          (BuiltIn DIRECT) ''AND,((DOMAIN,a.com),(BAD_KIND,x)),DIRECT'' 0)))"
proof (intro conjI allI impI)
  fix g rest cs ds conds
  assume h: "CHR ''('' \<notin> set g \<and> CHR '')'' \<notin> set g \<and> snd (parse_single_condition g) = None"
  then show "fst (parse_single_condition g) \<noteq> []"
    by (simp add: single_condition_None_diag)
  from h show "logic_conditions_loop cs (''('' @ g @ '')'' @ rest) ds conds [] [] =
        logic_conditions_loop cs rest (ds @ fst (parse_single_condition g)) conds [] []"
    by (cases "parse_single_condition g") (simp add: loop_group del: append.simps)
next
  show "parse_rule_line (PStr ''AND,((DOMAIN,a.com),(BAD_KIND,x)),DIRECT'') =
       ([InvalidRuleTypeInCondition ''BAD_KIND''],
        Inr (Some (LogicRule AND
          [ClashRule DOMAIN ''a.com'' (Named []) [] ''DOMAIN,a.com'' 0]
          (BuiltIn DIRECT) ''AND,((DOMAIN,a.com),(BAD_KIND,x)),DIRECT'' 0)))"
    by code_simp
qed

theorem lenient_skip_witness:
  "snd (parse_single_condition ''BAD_KIND,x'') = None \<and>
   logic_conditions_loop ''(BAD_KIND,x),(DOMAIN,a.com)'' ''(BAD_KIND,x),(DOMAIN,a.com)''
       [] [] [] [] =
     ([InvalidRuleTypeInCondition ''BAD_KIND''],
      [ClashRule DOMAIN ''a.com'' (Named []) [] ''DOMAIN,a.com'' 0])"
proof -
  have h: "CHR ''('' \<notin> set ''BAD_KIND,x'' \<and> CHR '')'' \<notin> set ''BAD_KIND,x''
           \<and> snd (parse_single_condition ''BAD_KIND,x'') = None"
    by code_simp
  have d: "fst (parse_single_condition ''BAD_KIND,x'') = [InvalidRuleTypeInCondition ''BAD_KIND'']"
    by code_simp
  have r: "logic_conditions_loop ''(BAD_KIND,x),(DOMAIN,a.com)'' '',(DOMAIN,a.com)''
             [InvalidRuleTypeInCondition ''BAD_KIND''] [] [] [] =
     ([InvalidRuleTypeInCondition ''BAD_KIND''],
      [ClashRule DOMAIN ''a.com'' (Named []) [] ''DOMAIN,a.com'' 0])"
    by code_simp
  from lenient_skip have
    "CHR ''('' \<notin> set ''BAD_KIND,x'' \<and> CHR '')'' \<notin> set ''BAD_KIND,x''
       \<and> snd (parse_single_condition ''BAD_KIND,x'') = None \<longrightarrow>
     logic_conditions_loop ''(BAD_KIND,x),(DOMAIN,a.com)''
        (''('' @ ''BAD_KIND,x'' @ '')'' @ '',(DOMAIN,a.com)'') [] [] [] [] =
     logic_conditions_loop ''(BAD_KIND,x),(DOMAIN,a.com)'' '',(DOMAIN,a.com)''
        ([] @ fst (parse_single_condition ''BAD_KIND,x'')) [] [] []"
    by blast
  with h d r show ?thesis by simp
qed

section \<open>Failures of the simple and the match path\<close>




section \<open>What each path returns\<close>

lemma match_rule_result:
  "parse_match_rule line = Inr r \<Longrightarrow> is_MatchRule r"
  by (auto simp: parse_match_rule_def Let_def split: if_splits option.splits)

lemma regular_rule_result:
  "parse_regular_rule line = Inr r \<Longrightarrow> is_ClashRule r"
  by (auto simp: parse_regular_rule_def Let_def split: if_splits option.splits)

lemma logic_rule_result:
  "parse_logic_rule line = (ds, Inr r) \<Longrightarrow>
     is_LogicRule r \<and> (\<forall>c \<in> set (conditions r). is_ClashRule c)"
  unfolding parse_logic_rule_def parse_logic_conditions_def Let_def
  by (auto split: option.splits prod.splits intro!: loop_leaves[where conds="[]", simplified, rule_format]
      dest!: arg_cong[where f=snd])

lemma line_logic_result:
  assumes "parse_rule_line v = (ds, Inr (Some r))" and "is_LogicRule r"
  shows "\<forall>c \<in> set (conditions r). is_ClashRule c"
proof (cases v)
  case (PStr s)
  with assms show ?thesis
    by (auto simp: parse_rule_line_def Let_def split: if_splits prod.splits sum.splits
        dest: logic_rule_result match_rule_result regular_rule_result)
qed (use assms in \<open>auto simp: parse_rule_line_def\<close>)

lemma dict_body_logic_result:
  assumes "parse_rule_dict_body str_of d = (ds, Inr (Some r))" and "is_LogicRule r"
  shows "\<forall>c \<in> set (conditions r). is_ClashRule c"
  using assms
  by (auto simp: parse_rule_dict_body_def Let_def map_sum_def
      split: if_splits prod.splits sum.splits pyval.splits
      dest: logic_rule_result match_rule_result regular_rule_result)

text \<open>
  Claim C6. Every element of the list that \<open>_parse_logic_conditions\<close> returns is a
  \<open>ClashRule\<close>, whatever the body, so the conditions of every \<open>LogicRule\<close> that
  \<open>parse_rule_line\<close> or \<open>parse_rule_dict\<close> returns are \<open>ClashRule\<close>s: no \<open>LogicRule\<close> is
  ever nested in another.
\<close>

theorem conditions_are_leaves:
  "(\<forall>c \<in> set (snd (parse_logic_conditions body)). is_ClashRule c)
   \<and> (parse_rule_line v = (ds, Inr (Some r)) \<and> is_LogicRule r \<longrightarrow>
        (\<forall>c \<in> set (conditions r). is_ClashRule c))
   \<and> (parse_rule_dict str_of v = (ds, Inr (Some r)) \<and> is_LogicRule r \<longrightarrow>
        (\<forall>c \<in> set (conditions r). is_ClashRule c))"
proof (intro conjI impI)
  show "\<forall>c \<in> set (snd (parse_logic_conditions body)). is_ClashRule c"
    unfolding parse_logic_conditions_def by (rule loop_leaves) simp
next
  assume "parse_rule_line v = (ds, Inr (Some r)) \<and> is_LogicRule r"
  then show "\<forall>c \<in> set (conditions r). is_ClashRule c"
    using line_logic_result by blast
next
  assume a: "parse_rule_dict str_of v = (ds, Inr (Some r)) \<and> is_LogicRule r"
  show "\<forall>c \<in> set (conditions r). is_ClashRule c"
  proof (cases v)
    case (PStr s)
    with a have "parse_rule_line v = (ds, Inr (Some r))"
      by (simp add: parse_rule_dict_def)
    with a show ?thesis using line_logic_result by blast
  next
    case (PDict d)
    with a have "\<exists>ds'. parse_rule_dict_body str_of d = (ds', Inr (Some r))"
      by (auto simp: parse_rule_dict_def split: prod.splits sum.splits)
    with a show ?thesis using dict_body_logic_result by blast
  qed (use a in \<open>auto simp: parse_rule_dict_def\<close>)
qed

theorem conditions_are_leaves_witness:
  "ClashRule DOMAIN ''a.com'' (Named []) [] ''DOMAIN,a.com'' 0
      \<in> set (snd (parse_logic_conditions ''(DOMAIN,a.com)''))
   \<and> is_ClashRule (ClashRule DOMAIN ''a.com'' (Named []) [] ''DOMAIN,a.com'' 0)
   \<and> parse_rule_line (PStr ''OR,((DOMAIN,a.com)),DIRECT'') =
       ([], Inr (Some (LogicRule OR [ClashRule DOMAIN ''a.com'' (Named []) [] ''DOMAIN,a.com'' 0]
          (BuiltIn DIRECT) ''OR,((DOMAIN,a.com)),DIRECT'' 0)))"
proof -
  have m: "snd (parse_logic_conditions ''(DOMAIN,a.com)'')
             = [ClashRule DOMAIN ''a.com'' (Named []) [] ''DOMAIN,a.com'' 0]"
    by code_simp
  have p: "parse_rule_line (PStr ''OR,((DOMAIN,a.com)),DIRECT'') =
       ([], Inr (Some (LogicRule OR [ClashRule DOMAIN ''a.com'' (Named []) [] ''DOMAIN,a.com'' 0]
          (BuiltIn DIRECT) ''OR,((DOMAIN,a.com)),DIRECT'' 0)))"
    by code_simp
  from conditions_are_leaves [of "''(DOMAIN,a.com)''"]
  have "\<forall>c \<in> set (snd (parse_logic_conditions ''(DOMAIN,a.com)'')). is_ClashRule c"
    by blast
  with m p show ?thesis by simp
qed

section \<open>No exception leaves the parser\<close>





section \<open>The action of a parsed rule\<close>







section \<open>The kind of a simple rule\<close>


lemma startswith_append: "startswith (p @ rest) p"
  by (simp add: startswith_def)






lemma upper_comma_Cons: "upper (a @ CHR '','' # b) = upper a @ CHR '','' # upper b"
  using upper_char_comma [of "CHR '',''"] by (simp add: upper_def)











section \<open>The dictionary adapter and the line parser\<close>

lemma takeWhile_token:
  "CHR '','' \<notin> set a \<Longrightarrow> takeWhile (\<lambda>c. c \<noteq> CHR '','') (a @ CHR '','' # b) = a"
  by (induction a) auto

lemma startswith_token:
  assumes "CHR '','' \<notin> set a" and "CHR '','' \<notin> set p"
    and "startswith (a @ CHR '','' # b) (p @ '','')"
  shows "a = p"
proof -
  from assms(3) have "a @ CHR '','' # b = (p @ '','') @ drop (length (p @ '','')) (a @ CHR '','' # b)"
    unfolding startswith_def by (metis append_take_drop_id)
  then have "a @ CHR '','' # b = p @ CHR '','' # drop (length (p @ '','')) (a @ CHR '','' # b)"
    by simp
  then have "takeWhile (\<lambda>c. c \<noteq> CHR '','') (a @ CHR '','' # b)
           = takeWhile (\<lambda>c. c \<noteq> CHR '','')
               (p @ CHR '','' # drop (length (p @ '','')) (a @ CHR '','' # b))"
    by (rule arg_cong)
  then show ?thesis
    by (simp only: takeWhile_token [OF assms(1)] takeWhile_token [OF assms(2)])
qed

lemma line_logic_path:
  assumes "strip L = L" and "L \<noteq> []"
    and "startswith L ''AND,'' \<or> startswith L ''OR,'' \<or> startswith L ''NOT,''"
  shows "snd (parse_rule_line (PStr L)) =
     (case snd (parse_logic_rule L) of Inr r \<Rightarrow> Inr (Some r) | Inl e \<Rightarrow> Inr None)"
  using assms
  by (cases "parse_logic_rule L")
     (auto simp: parse_rule_line_def Let_def split: sum.splits)

lemma line_match_path:
  assumes "strip L = L" and "L \<noteq> []"
    and "\<not> startswith L ''AND,''" and "\<not> startswith L ''OR,''" and "\<not> startswith L ''NOT,''"
    and "startswith (upper L) ''MATCH,''"
  shows "snd (parse_rule_line (PStr L)) =
     (case parse_match_rule L of Inr r \<Rightarrow> Inr (Some r) | Inl e \<Rightarrow> Inr None)"
  using assms
  by (auto simp: parse_rule_line_def Let_def split: sum.splits)

lemma line_regular_path:
  assumes "strip L = L" and "L \<noteq> []"
    and "\<not> startswith L ''AND,''" and "\<not> startswith L ''OR,''" and "\<not> startswith L ''NOT,''"
    and "\<not> startswith (upper L) ''MATCH,''"
  shows "snd (parse_rule_line (PStr L)) =
     (case parse_regular_rule L of Inr r \<Rightarrow> Inr (Some r) | Inl e \<Rightarrow> Inr None)"
  using assms
  by (auto simp: parse_rule_line_def Let_def split: sum.splits)

lemma dict_catch:
  "parse_rule_dict_body str_of d = (ds, map_sum id Some x) \<Longrightarrow>
   snd (parse_rule_dict str_of (PDict d)) = (case x of Inr r \<Rightarrow> Inr (Some r) | Inl e \<Rightarrow> Inr None)"
  by (cases x) (auto simp: parse_rule_dict_def)


lemma upper_MATCH: "upper ''MATCH,'' = ''MATCH,''"
  by code_simp

lemma dict_logic_branch:
  assumes "dict_line str_of d = Some L" and "dict_get d ''type'' (PStr []) = PStr t"
    and "upper t = ''AND'' \<or> upper t = ''OR'' \<or> upper t = ''NOT''"
  shows "parse_rule_dict_body str_of d =
           (fst (parse_logic_rule L), map_sum id Some (snd (parse_logic_rule L)))
     \<and> (startswith L ''AND,'' \<or> startswith L ''OR,'' \<or> startswith L ''NOT,'')"
  using assms
  by (auto simp: dict_line_def parse_rule_dict_body_def Let_def startswith_def
      split: pyval.splits if_splits prod.splits)

lemma dict_match_branch:
  assumes "dict_line str_of d = Some L" and "dict_get d ''type'' (PStr []) = PStr t"
    and "upper t = ''MATCH''"
  shows "parse_rule_dict_body str_of d = ([], map_sum id Some (parse_match_rule L))
     \<and> (\<exists>a. L = ''MATCH,'' @ a)"
  using assms
  by (auto simp: dict_line_def parse_rule_dict_body_def Let_def
      split: pyval.splits if_splits prod.splits)

lemma dict_regular_branch:
  assumes "dict_line str_of d = Some L" and "dict_get d ''type'' (PStr []) = PStr t"
    and "upper t \<noteq> ''AND''" and "upper t \<noteq> ''OR''" and "upper t \<noteq> ''NOT''"
    and "upper t \<noteq> ''MATCH''"
  shows "parse_rule_dict_body str_of d = ([], map_sum id Some (parse_regular_rule L))
     \<and> (\<exists>rest. L = upper t @ CHR '','' # rest)"
  using assms
  by (auto simp: dict_line_def parse_rule_dict_body_def Let_def
      split: pyval.splits if_splits prod.splits)

lemma dict_line_not_Nil:
  "dict_line str_of d = Some L \<Longrightarrow> L \<noteq> []"
  by (auto simp: dict_line_def Let_def split: pyval.splits if_splits)

lemma dict_agrees_with_line:
  assumes L: "dict_line str_of d = Some L" and st: "strip L = L"
    and ty: "dict_get d ''type'' (PStr []) = PStr t" and nc: "CHR '','' \<notin> set t"
  shows "snd (parse_rule_dict str_of (PDict d)) = snd (parse_rule_line (PStr L))"
proof -
  note ne = dict_line_not_Nil [OF L]
  consider (logic) "upper t = ''AND'' \<or> upper t = ''OR'' \<or> upper t = ''NOT''"
    | (match) "upper t = ''MATCH''"
    | (regular) "upper t \<noteq> ''AND''" "upper t \<noteq> ''OR''" "upper t \<noteq> ''NOT''"
        "upper t \<noteq> ''MATCH''"
    by blast
  then show ?thesis
  proof cases
    case logic
    note b = dict_logic_branch [OF L ty logic]
    from b have "parse_rule_dict_body str_of d =
        (fst (parse_logic_rule L), map_sum id Some (snd (parse_logic_rule L)))" by simp
    then have "snd (parse_rule_dict str_of (PDict d)) =
        (case snd (parse_logic_rule L) of Inr r \<Rightarrow> Inr (Some r) | Inl e \<Rightarrow> Inr None)"
      by (rule dict_catch)
    moreover from b have "startswith L ''AND,'' \<or> startswith L ''OR,'' \<or> startswith L ''NOT,''"
      by simp
    then have "snd (parse_rule_line (PStr L)) =
        (case snd (parse_logic_rule L) of Inr r \<Rightarrow> Inr (Some r) | Inl e \<Rightarrow> Inr None)"
      by (rule line_logic_path [OF st ne])
    ultimately show ?thesis by simp
  next
    case match
    note b = dict_match_branch [OF L ty match]
    from b have "parse_rule_dict_body str_of d = ([], map_sum id Some (parse_match_rule L))"
      by simp
    then have d: "snd (parse_rule_dict str_of (PDict d)) =
        (case parse_match_rule L of Inr r \<Rightarrow> Inr (Some r) | Inl e \<Rightarrow> Inr None)"
      by (rule dict_catch)
    from b obtain a where a: "L = ''MATCH,'' @ a" by blast
    then have n: "\<not> startswith L ''AND,''" "\<not> startswith L ''OR,''" "\<not> startswith L ''NOT,''"
      by (simp_all add: startswith_def)
    from a have "upper L = ''MATCH,'' @ upper a"
      by (simp only: upper_append upper_MATCH)
    then have "startswith (upper L) ''MATCH,''"
      by (simp only: startswith_append)
    with n have "snd (parse_rule_line (PStr L)) =
        (case parse_match_rule L of Inr r \<Rightarrow> Inr (Some r) | Inl e \<Rightarrow> Inr None)"
      by (intro line_match_path [OF st ne])
    with d show ?thesis by simp
  next
    case regular
    note b = dict_regular_branch [OF L ty regular]
    from b have "parse_rule_dict_body str_of d = ([], map_sum id Some (parse_regular_rule L))"
      by simp
    then have d: "snd (parse_rule_dict str_of (PDict d)) =
        (case parse_regular_rule L of Inr r \<Rightarrow> Inr (Some r) | Inl e \<Rightarrow> Inr None)"
      by (rule dict_catch)
    from b obtain rest where l: "L = upper t @ CHR '','' # rest" by blast
    from nc have c: "CHR '','' \<notin> set (upper t)"
      by (simp add: upper_comma_free)
    have n1: "\<not> startswith L ''AND,''"
    proof
      assume "startswith L ''AND,''"
      then have "startswith (upper t @ CHR '','' # rest) (''AND'' @ '','')"
        by (simp add: l)
      with c have "upper t = ''AND''" by (intro startswith_token) simp_all
      with regular show False by simp
    qed
    have n2: "\<not> startswith L ''OR,''"
    proof
      assume "startswith L ''OR,''"
      then have "startswith (upper t @ CHR '','' # rest) (''OR'' @ '','')"
        by (simp add: l)
      with c have "upper t = ''OR''" by (intro startswith_token) simp_all
      with regular show False by simp
    qed
    have n3: "\<not> startswith L ''NOT,''"
    proof
      assume "startswith L ''NOT,''"
      then have "startswith (upper t @ CHR '','' # rest) (''NOT'' @ '','')"
        by (simp add: l)
      with c have "upper t = ''NOT''" by (intro startswith_token) simp_all
      with regular show False by simp
    qed
    have u: "upper L = upper t @ CHR '','' # upper rest"
      by (simp only: l upper_comma_Cons upper_idem)
    have n4: "\<not> startswith (upper L) ''MATCH,''"
    proof
      assume "startswith (upper L) ''MATCH,''"
      then have "startswith (upper t @ CHR '','' # upper rest) (''MATCH'' @ '','')"
        by (simp add: u)
      with c have "upper t = ''MATCH''" by (intro startswith_token) simp_all
      with regular show False by simp
    qed
    from n1 n2 n3 n4 have "snd (parse_rule_line (PStr L)) =
        (case parse_regular_rule L of Inr r \<Rightarrow> Inr (Some r) | Inl e \<Rightarrow> Inr None)"
      by (intro line_regular_path [OF st ne])
    with d show ?thesis by simp
  qed
qed


lemma dict_example:
  "parse_rule_dict str_of
     (PDict [(''type'', PStr ''DOMAIN''), (''payload'', PStr ''x.com''),
             (''action'', PStr ''DIRECT'')]) =
   ([], Inr (Some (ClashRule DOMAIN ''x.com'' (BuiltIn DIRECT) [] ''DOMAIN,x.com,DIRECT'' 0)))"
proof -
  let ?d = "[(''type'', PStr ''DOMAIN''), (''payload'', PStr ''x.com''),
             (''action'', PStr ''DIRECT'')]"
  have ty: "dict_get ?d ''type'' (PStr []) = PStr ''DOMAIN''"
    by (simp add: dict_get_def)
  have up: "upper ''DOMAIN'' = ''DOMAIN''"
    by code_simp
  have dl: "dict_line str_of ?d = Some ''DOMAIN,x.com,DIRECT''"
    by (simp add: dict_line_def dict_get_def up format_def)
  have "parse_rule_dict_body str_of ?d =
          ([], map_sum id Some (parse_regular_rule ''DOMAIN,x.com,DIRECT''))"
    using dict_regular_branch [OF dl ty] by (simp add: up)
  moreover have "parse_regular_rule ''DOMAIN,x.com,DIRECT'' =
      Inr (ClashRule DOMAIN ''x.com'' (BuiltIn DIRECT) [] ''DOMAIN,x.com,DIRECT'' 0)"
    by code_simp
  ultimately show ?thesis
    by (simp add: parse_rule_dict_def)
qed

text \<open>
  Claim C2, as the code has it. \<open>parse_rule_dict\<close> builds the line from the type in
  upper case and hands it to the path parser that this type selects; it does not go
  through \<open>parse_rule_line\<close>, which trims the line and selects the path by the prefix
  of the line. The two return the same when the built line has no white space at its
  ends and the type has no comma. The dictionary with type \<open>DOMAIN\<close>, payload \<open>x.com\<close>
  and action \<open>DIRECT\<close> gives what the line \<open>DOMAIN,x.com,DIRECT\<close> gives, diagnostics
  included.
\<close>

theorem dict_adapter:
  "(dict_line str_of d = Some L \<and> strip L = L \<and> dict_get d ''type'' (PStr []) = PStr t
      \<and> CHR '','' \<notin> set t
    \<longrightarrow> snd (parse_rule_dict str_of (PDict d)) = snd (parse_rule_line (PStr L)))
   \<and> parse_rule_dict str_of
        (PDict [(''type'', PStr ''DOMAIN''), (''payload'', PStr ''x.com''),
                (''action'', PStr ''DIRECT'')])
       = parse_rule_line (PStr ''DOMAIN,x.com,DIRECT'')"
proof (intro conjI impI)
  assume "dict_line str_of d = Some L \<and> strip L = L
      \<and> dict_get d ''type'' (PStr []) = PStr t \<and> CHR '','' \<notin> set t"
  then show "snd (parse_rule_dict str_of (PDict d)) = snd (parse_rule_line (PStr L))"
    using dict_agrees_with_line by blast
next
  have "parse_rule_line (PStr ''DOMAIN,x.com,DIRECT'') =
    ([], Inr (Some (ClashRule DOMAIN ''x.com'' (BuiltIn DIRECT) [] ''DOMAIN,x.com,DIRECT'' 0)))"
    by code_simp
  then show "parse_rule_dict str_of
        (PDict [(''type'', PStr ''DOMAIN''), (''payload'', PStr ''x.com''),
                (''action'', PStr ''DIRECT'')])
       = parse_rule_line (PStr ''DOMAIN,x.com,DIRECT'')"
    by (simp only: dict_example)
qed

theorem dict_adapter_witness:
  "dict_line str_unused
       [(''type'', PStr ''and''),
        (''conditions'', PList [PDict [(''type'', PStr ''DOMAIN''), (''payload'', PStr ''a.com'')],
                                PStr ''(NETWORK,UDP)'']),
        (''action'', PStr ''Proxy'')]
     = Some ''AND,((DOMAIN,a.com)(NETWORK,UDP)),Proxy''
   \<and> strip ''AND,((DOMAIN,a.com)(NETWORK,UDP)),Proxy'' = ''AND,((DOMAIN,a.com)(NETWORK,UDP)),Proxy''
   \<and> CHR '','' \<notin> set ''and''
   \<and> snd (parse_rule_dict str_unused (PDict
       [(''type'', PStr ''and''),
        (''conditions'', PList [PDict [(''type'', PStr ''DOMAIN''), (''payload'', PStr ''a.com'')],
                                PStr ''(NETWORK,UDP)'']),
        (''action'', PStr ''Proxy'')]))
     = Inr (Some (LogicRule AND
         [ClashRule DOMAIN ''a.com'' (Named []) [] ''DOMAIN,a.com'' 0,
          ClashRule NETWORK ''UDP'' (Named []) [] ''NETWORK,UDP'' 0]
         (Named ''Proxy'') ''AND,((DOMAIN,a.com)(NETWORK,UDP)),Proxy'' 0))"
proof -
  let ?d = "[(''type'', PStr ''and''),
        (''conditions'', PList [PDict [(''type'', PStr ''DOMAIN''), (''payload'', PStr ''a.com'')],
                                PStr ''(NETWORK,UDP)'']),
        (''action'', PStr ''Proxy'')]"
  let ?L = "''AND,((DOMAIN,a.com)(NETWORK,UDP)),Proxy''"
  have h1: "dict_line str_unused ?d = Some ?L" by code_simp
  have h2: "strip ?L = ?L" by code_simp
  have h3: "dict_get ?d ''type'' (PStr []) = PStr ''and''" by code_simp
  have h4: "CHR '','' \<notin> set ''and''" by simp
  have l: "snd (parse_rule_line (PStr ?L)) = Inr (Some (LogicRule AND
         [ClashRule DOMAIN ''a.com'' (Named []) [] ''DOMAIN,a.com'' 0,
          ClashRule NETWORK ''UDP'' (Named []) [] ''NETWORK,UDP'' 0]
         (Named ''Proxy'') ?L 0))"
    by code_simp
  from dict_adapter [where str_of=str_unused and d="?d" and L="?L" and t="''and''"] h1 h2 h3 h4
  have "snd (parse_rule_dict str_unused (PDict ?d)) = snd (parse_rule_line (PStr ?L))"
    by blast
  with l h1 h2 h4 show ?thesis by (simp only:) simp
qed

text \<open>
  For every dictionary the claim fails: with the type \<open>" AND"\<close> the built line is
  \<open>" AND,x,DIRECT"\<close>; \<open>parse_rule_dict\<close> takes the simple path and returns a \<open>ClashRule\<close>,
  while \<open>parse_rule_line\<close> trims the line, takes the logic path and returns no rule.
\<close>

theorem dict_adapter_counterexample:
  "dict_line str_unused
       [(''type'', PStr '' AND''), (''payload'', PStr ''x''), (''action'', PStr ''DIRECT'')]
     = Some '' AND,x,DIRECT''
   \<and> parse_rule_dict str_unused
        (PDict [(''type'', PStr '' AND''), (''payload'', PStr ''x''), (''action'', PStr ''DIRECT'')])
     = ([], Inr (Some (ClashRule AND ''x'' (BuiltIn DIRECT) [] '' AND,x,DIRECT'' 0)))
   \<and> parse_rule_line (PStr '' AND,x,DIRECT'')
     = ([ErrorParsingRule ''AND,x,DIRECT'' (InvalidLogicFormat ''AND,x,DIRECT'')], Inr None)"
  by code_simp

section \<open>Parsing a line and rendering the rule\<close>





























end
